theory Spec2Isabelle
  imports Main "HOL-Library.Word"
begin

section \<open>The recommendation exporter of backend/routes/coh.py\<close>

text \<open>
  The script reads the cost-optimization recommendations page by page and writes one CSV
  file. The model below follows the script line by line. What the script gets from outside
  (the clock, the outcome of the two filesystem calls, the pages the paginator yields) is
  collected in an environment; what it does to the outside (the file, the console) is a
  state that is passed along, together with a trace of the effects in the order they happen.
\<close>

subsection \<open>Python values\<close>

text \<open>
  The values the exporter passes through. It never computes with them: the only value it
  inspects is the status code, compared with \<open>200\<close>. A float is kept as its 64-bit
  pattern, a timestamp as a number; a dictionary is an association list read with
  \<open>map_of\<close>.
\<close>

datatype pyval =
    PNone
  | PBool bool
  | PInt int
  | PFloat "64 word"
  | PStr string
  | PDatetime int
  | PList "pyval list"
  | PTuple "pyval list"
  | PDict "(string \<times> pyval) list"

type_synonym pydict = "(string \<times> pyval) list"

datatype error = RuntimeError string | OSError string | ClientError string

text \<open>\<open>d.get(k)\<close>: the value stored under \<open>k\<close>, \<open>None\<close> when there is none.\<close>

definition dict_get :: "pydict \<Rightarrow> string \<Rightarrow> pyval" where
  "dict_get d k = (case map_of d k of None \<Rightarrow> PNone | Some v \<Rightarrow> v)"

text \<open>
  \<open>v != 200\<close>. Python compares numbers by value: \<open>True\<close> is 1 and \<open>False\<close> is 0,
  and the only float equal to 200 is 200.0, whose pattern is \<open>0x4069000000000000\<close>.
  A value that is not a number differs from 200.
\<close>

fun ne_200 :: "pyval \<Rightarrow> bool" where
  "ne_200 (PInt i) = (i \<noteq> 200)"
| "ne_200 (PFloat w) = (w \<noteq> 0x4069000000000000)"
| "ne_200 v = True"

subsection \<open>Decimal numbers and strings\<close>

definition digit_char :: "nat \<Rightarrow> char" where
  "digit_char n = ''0123456789'' ! n"

fun decimal :: "nat \<Rightarrow> string" where
  "decimal n = (if n < 10 then [digit_char n] else decimal (n div 10) @ [digit_char (n mod 10)])"

declare decimal.simps [simp del]

definition zero_pad :: "nat \<Rightarrow> string \<Rightarrow> string" where
  "zero_pad width s = replicate (width - length s) CHR ''0'' @ s"

text \<open>\<open>sep.join(xs)\<close>\<close>

fun str_join :: "string \<Rightarrow> string list \<Rightarrow> string" where
  "str_join sep [] = []"
| "str_join sep [x] = x"
| "str_join sep (x # y # ys) = x @ sep @ str_join sep (y # ys)"

text \<open>
  \<open>str(v)\<close>. A string is returned as it is; \<open>None\<close>, booleans and integers have their
  usual spelling. The spelling of the other values (floats, timestamps, containers) is
  Python's own business and is taken as the parameter \<open>other\<close>.
\<close>

fun py_str :: "(pyval \<Rightarrow> string) \<Rightarrow> pyval \<Rightarrow> string" where
  "py_str other (PStr s) = s"
| "py_str other PNone = ''None''"
| "py_str other (PBool b) = (if b then ''True'' else ''False'')"
| "py_str other (PInt i) = (if i < 0 then ''-'' @ decimal (nat (- i)) else decimal (nat i))"
| "py_str other v = other v"

subsection \<open>The environment reader (lines 7-17)\<close>

text \<open>\<open>os.environ.get(name, default)\<close>: the environment holds strings only.\<close>

definition environ_get :: "(string \<rightharpoonup> string) \<Rightarrow> string \<Rightarrow> pyval \<Rightarrow> pyval" where
  "environ_get environ name dflt = (case environ name of None \<Rightarrow> dflt | Some s \<Rightarrow> PStr s)"

definition get_env_str ::
  "(pyval \<Rightarrow> string) \<Rightarrow> (string \<rightharpoonup> string) \<Rightarrow> string \<Rightarrow> pyval \<Rightarrow> bool \<Rightarrow> error + pyval" where
  "get_env_str other environ name dflt required =
     (let val = environ_get environ name dflt;
          val = (case val of
                   PList xs \<Rightarrow> PStr (str_join '','' (map (py_str other) xs))
                 | PTuple xs \<Rightarrow> PStr (str_join '','' (map (py_str other) xs))
                 | _ \<Rightarrow> val)
      in if val = PNone \<and> required
         then Inl (RuntimeError (''Missing required environment variable: '' @ name))
         else Inr (if val \<noteq> PNone then PStr (py_str other val) else val))"

subsection \<open>Configuration and the output path (lines 20-43)\<close>

definition client_name :: string where
  "client_name = ''Titans-Sandbox''"

definition local_root :: string where
  "local_root = ''/Users/adarsh/Carbon-test/''"

text \<open>The part of \<open>datetime.now()\<close> that the script uses.\<close>

record date =
  year :: nat
  month :: nat

text \<open>
  \<open>strftime('%Y%m')\<close>: the year as a decimal number of at least four digits, then the
  month as two digits. (C libraries differ on padding a year below 1000; what is proved
  about the number of digits is for the years 1000 to 9999, where they agree.)
\<close>

definition strftime_Ym :: "date \<Rightarrow> string" where
  "strftime_Ym d = zero_pad 4 (decimal (year d)) @ zero_pad 2 (decimal (month d))"

text \<open>
  \<open>os.path.join\<close> on a POSIX system, one step of its loop: a component that starts with
  the separator replaces what came before; otherwise it is appended, after a separator
  unless the path so far is empty or already ends with one.
\<close>

definition join_step :: "string \<Rightarrow> string \<Rightarrow> string" where
  "join_step path b =
     (if b \<noteq> [] \<and> hd b = CHR ''/'' then b
      else if path = [] \<or> last path = CHR ''/'' then path @ b
      else path @ ''/'' @ b)"

definition path_join :: "string \<Rightarrow> string list \<Rightarrow> string" where
  "path_join a p = foldl join_step a p"

definition folder_path :: "string \<Rightarrow> string \<Rightarrow> date \<Rightarrow> string" where
  "folder_path root client d = path_join root [client, strftime_Ym d]"

definition csv_filename :: "string \<Rightarrow> string \<Rightarrow> date \<Rightarrow> string" where
  "csv_filename root client d =
     path_join (folder_path root client d) [client @ ''_recommendations.csv'']"

subsection \<open>Header and rows (lines 49-57 and 80-91)\<close>

definition header :: "pyval list" where
  "header =
     [PStr ''Account ID'', PStr ''Action Type'', PStr ''Currency Code'',
      PStr ''Current Resource Summary'', PStr ''Current Resource Type'',
      PStr ''Estimated Monthly Cost'', PStr ''Estimated Monthly Savings'',
      PStr ''Estimated Savings Percentage'', PStr ''Implementation Effort'',
      PStr ''Last Refresh Timestamp'', PStr ''Recommendation ID'',
      PStr ''Recommendation Lookback Period In Days'',
      PStr ''Recommended Resource Summary'', PStr ''Recommended Resource Type'',
      PStr ''Region'', PStr ''Resource ARN'', PStr ''Resource ID'', PStr ''Restart Needed'',
      PStr ''Rollback Possible'', PStr ''Source'', PStr ''Tags'']"

definition row :: "pydict \<Rightarrow> pyval list" where
  "row item =
     [dict_get item ''accountId'', dict_get item ''actionType'', dict_get item ''currencyCode'',
      dict_get item ''currentResourceSummary'', dict_get item ''currentResourceType'',
      dict_get item ''estimatedMonthlyCost'', dict_get item ''estimatedMonthlySavings'',
      dict_get item ''estimatedSavingsPercentage'', dict_get item ''implementationEffort'',
      dict_get item ''lastRefreshTimestamp'', dict_get item ''recommendationId'',
      dict_get item ''recommendationLookbackPeriodInDays'',
      dict_get item ''recommendedResourceSummary'', dict_get item ''recommendedResourceType'',
      dict_get item ''region'', dict_get item ''resourceArn'', dict_get item ''resourceId'',
      dict_get item ''restartNeeded'', dict_get item ''rollbackPossible'',
      dict_get item ''source'', dict_get item ''tags'']"

subsection \<open>Pages\<close>

text \<open>
  One page of the listing, as the paginator hands it over: a dictionary whose entry
  \<open>ResponseMetadata\<close> is a dictionary and whose entry \<open>items\<close> is a list of
  dictionaries. The script reads both with a default, so either may be missing.
\<close>

record page =
  ResponseMetadata :: "pydict option"
  items :: "pydict list option"

text \<open>The test of line 77, negated: the page is kept.\<close>

definition status_ok :: "page \<Rightarrow> bool" where
  "status_ok p =
     (\<not> ne_200 (dict_get (case ResponseMetadata p of None \<Rightarrow> [] | Some m \<Rightarrow> m)
                  ''HTTPStatusCode''))"

definition page_items :: "page \<Rightarrow> pydict list" where
  "page_items p = (case items p of None \<Rightarrow> [] | Some xs \<Rightarrow> xs)"

text \<open>What asking the page iterator for its next page gives: a page, or an exception.\<close>

datatype fetch = Page page | Raise error

subsection \<open>Effects\<close>

datatype event =
    EvPrint string
  | EvMakedirs string
  | EvOpen string
  | EvWriterow "pyval list"
  | EvFetch
  | EvClose string

text \<open>
  The state: the bytes of every file, the lines printed, and the trace of the effects
  that took place. A file object buffers what is written and hands it to the file when it
  is closed; the \<open>with\<close> block closes the file on every way out, so the model appends
  to the file at once.
\<close>

record world =
  files :: "string \<rightharpoonup> string"
  stdout :: "string list"
  trace :: "event list"

text \<open>
  What the run meets: the date, the exception of \<open>os.makedirs\<close> and of \<open>open\<close> if
  they raise one, and what the page iterator gives, request after request. Creating the
  client (line 25) and the paginator (lines 70-74) sends no request; the first request
  goes out when the loop of line 76 asks for the first page.
\<close>

record env =
  now :: date
  makedirs_error :: "error option"
  open_error :: "error option"
  upstream :: "fetch list"

definition emit :: "event \<Rightarrow> world \<Rightarrow> world" where
  "emit ev w = w\<lparr>trace := trace w @ [ev]\<rparr>"

definition print_line :: "string \<Rightarrow> world \<Rightarrow> world" where
  "print_line s w = emit (EvPrint s) (w\<lparr>stdout := stdout w @ [s]\<rparr>)"

text \<open>\<open>open(f, 'w')\<close> creates the file or empties it.\<close>

definition open_w :: "string \<Rightarrow> world \<Rightarrow> world" where
  "open_w f w = emit (EvOpen f) (w\<lparr>files := (files w)(f \<mapsto> [])\<rparr>)"

text \<open>
  \<open>csv_writer.writerow(r)\<close> appends the line of \<open>r\<close> to the file. How the csv module
  spells a row is the parameter \<open>fmt\<close>.
\<close>

definition writerow :: "(pyval list \<Rightarrow> string) \<Rightarrow> string \<Rightarrow> pyval list \<Rightarrow> world \<Rightarrow> world" where
  "writerow fmt f r w =
     emit (EvWriterow r)
       (w\<lparr>files := (files w)(f \<mapsto> (case files w f of None \<Rightarrow> [] | Some b \<Rightarrow> b) @ fmt r)\<rparr>)"

subsection \<open>The loops (lines 76-92) and the script\<close>

fun item_loop :: "(pyval list \<Rightarrow> string) \<Rightarrow> string \<Rightarrow> pydict list \<Rightarrow> world \<Rightarrow> world" where
  "item_loop fmt f [] w = w"
| "item_loop fmt f (item # rest) w = item_loop fmt f rest (writerow fmt f (row item) w)"

fun page_loop ::
  "(pyval list \<Rightarrow> string) \<Rightarrow> string \<Rightarrow> fetch list \<Rightarrow> world \<Rightarrow> (error + unit) \<times> world" where
  "page_loop fmt f [] w = (Inr (), w)"
| "page_loop fmt f (Raise e # rest) w = (Inl e, emit EvFetch w)"
| "page_loop fmt f (Page p # rest) w =
     (if \<not> status_ok p then page_loop fmt f rest (emit EvFetch w)
      else page_loop fmt f rest (item_loop fmt f (page_items p) (emit EvFetch w)))"

text \<open>
  The script, for a root folder and a client name (the script's own are \<open>local_root\<close> and
  \<open>client_name\<close>), started on the files \<open>fs\<close> with nothing printed yet.
\<close>

definition export ::
  "(pyval list \<Rightarrow> string) \<Rightarrow> string \<Rightarrow> string \<Rightarrow> env \<Rightarrow> (string \<rightharpoonup> string)
     \<Rightarrow> (error + unit) \<times> world" where
  "export fmt root client e fs =
     (let w0 = \<lparr>files = fs, stdout = [], trace = []\<rparr>;
          folder = folder_path root client (now e);
          w1 = print_line (''DEBUG: folder_path = '' @ folder) w0
      in case makedirs_error e of
           Some err \<Rightarrow> (Inl err, w1)
         | None \<Rightarrow>
             (let w2 = emit (EvMakedirs folder) w1;
                  f = csv_filename root client (now e)
              in case open_error e of
                   Some err \<Rightarrow> (Inl err, w2)
                 | None \<Rightarrow>
                     (let w3 = open_w f w2;
                          w4 = writerow fmt f header w3;
                          (r, w5) = page_loop fmt f (upstream e) w4;
                          w6 = emit (EvClose f) w5
                      in case r of
                           Inl err \<Rightarrow> (Inl err, w6)
                         | Inr u \<Rightarrow>
                             (Inr (),
                              print_line (''Results exported to local file: '' @ f) w6))))"

definition main :: "(pyval list \<Rightarrow> string) \<Rightarrow> env \<Rightarrow> (string \<rightharpoonup> string) \<Rightarrow> (error + unit) \<times> world" where
  "main fmt e fs = export fmt local_root client_name e fs"

text \<open>The rows handed to the csv writer, in the order of the trace.\<close>

fun written :: "event list \<Rightarrow> pyval list list" where
  "written [] = []"
| "written (EvWriterow r # evs) = r # written evs"
| "written (ev # evs) = written evs"

subsection \<open>Reading an upstream\<close>

text \<open>
  Three functions used to state what a run does: the pages that arrive before the first
  exception, that exception, and the rows of the pages that pass the status test.
\<close>

fun yielded :: "fetch list \<Rightarrow> page list" where
  "yielded [] = []"
| "yielded (Raise e # rest) = []"
| "yielded (Page p # rest) = p # yielded rest"

fun first_raise :: "fetch list \<Rightarrow> error option" where
  "first_raise [] = None"
| "first_raise (Raise e # rest) = Some e"
| "first_raise (Page p # rest) = first_raise rest"

definition kept_rows :: "page list \<Rightarrow> pyval list list" where
  "kept_rows ps = concat (map (\<lambda>p. map row (page_items p)) (filter status_ok ps))"

definition all_rows :: "page list \<Rightarrow> pyval list list" where
  "all_rows ps = concat (map (\<lambda>p. map row (page_items p)) ps)"

subsection \<open>Records with and without a field\<close>

text \<open>
  The keys the row reads, column by column, and a record with one key taken out; both
  are used to state what the row of a record with missing fields is.
\<close>

definition field_names :: "string list" where
  "field_names =
     [''accountId'', ''actionType'', ''currencyCode'', ''currentResourceSummary'',
      ''currentResourceType'', ''estimatedMonthlyCost'', ''estimatedMonthlySavings'',
      ''estimatedSavingsPercentage'', ''implementationEffort'', ''lastRefreshTimestamp'',
      ''recommendationId'', ''recommendationLookbackPeriodInDays'',
      ''recommendedResourceSummary'', ''recommendedResourceType'', ''region'',
      ''resourceArn'', ''resourceId'', ''restartNeeded'', ''rollbackPossible'', ''source'',
      ''tags'']"

definition dict_del :: "string \<Rightarrow> pydict \<Rightarrow> pydict" where
  "dict_del k d = filter (\<lambda>kv. fst kv \<noteq> k) d"

subsection \<open>A path with its separator\<close>

text \<open>
  A path made ready for the next component: the separator is added unless the path is
  empty or ends with it already. Used to state what the joined path is.
\<close>

definition with_sep :: "string \<Rightarrow> string" where
  "with_sep p = (if p = [] \<or> last p = CHR ''/'' then p else p @ ''/'')"

subsection \<open>Sample data\<close>

text \<open>
  A run date, three records, a page that passes the status test and one that does not, and
  the csv module's spelling of a row none of whose cells needs quoting: \<open>None\<close> is
  the empty cell, the cells are separated by commas, the line ends with CR LF.
\<close>

definition july_2024 :: date where
  "july_2024 = \<lparr>year = 2024, month = 7\<rparr>"

definition rec_a :: pydict where
  "rec_a = [(''accountId'', PStr ''111122223333''), (''actionType'', PStr ''Stop''),
            (''recommendationLookbackPeriodInDays'', PInt 14), (''restartNeeded'', PBool True)]"

definition rec_b :: pydict where
  "rec_b = [(''region'', PStr ''us-east-1''), (''accountId'', PStr ''999900001111'')]"

definition rec_c :: pydict where
  "rec_c = [(''source'', PStr ''ComputeOptimizer'')]"

definition page_with :: "int \<Rightarrow> pydict list \<Rightarrow> page" where
  "page_with code its =
     \<lparr>ResponseMetadata = Some [(''HTTPStatusCode'', PInt code)], items = Some its\<rparr>"

definition quiet :: "fetch list \<Rightarrow> env" where
  "quiet us = \<lparr>now = july_2024, makedirs_error = None, open_error = None, upstream = us\<rparr>"

definition csv_cell :: "pyval \<Rightarrow> string" where
  "csv_cell v = (if v = PNone then [] else py_str (\<lambda>u. []) v)"

definition csv_plain :: "pyval list \<Rightarrow> string" where
  "csv_plain r = str_join '','' (map csv_cell r) @ [CHR 0x0D, CHR 0x0A]"

section \<open>Lemmas on the effects\<close>

lemma emit_fields [simp]:
  "files (emit ev w) = files w" "stdout (emit ev w) = stdout w"
  "trace (emit ev w) = trace w @ [ev]"
  by (simp_all add: emit_def)

lemma print_line_fields [simp]:
  "files (print_line s w) = files w" "stdout (print_line s w) = stdout w @ [s]"
  "trace (print_line s w) = trace w @ [EvPrint s]"
  by (simp_all add: print_line_def)

lemma open_w_fields [simp]:
  "files (open_w f w) = (files w)(f \<mapsto> [])" "stdout (open_w f w) = stdout w"
  "trace (open_w f w) = trace w @ [EvOpen f]"
  by (simp_all add: open_w_def)

lemma writerow_fields [simp]:
  "files w f = Some b \<Longrightarrow> files (writerow fmt f r w) = (files w)(f \<mapsto> b @ fmt r)"
  "stdout (writerow fmt f r w) = stdout w"
  "trace (writerow fmt f r w) = trace w @ [EvWriterow r]"
  by (simp_all add: writerow_def)

lemma written_append [simp]: "written (xs @ ys) = written xs @ written ys"
  by (induction xs rule: written.induct) simp_all

lemma item_loop_files:
  "files w f = Some b \<Longrightarrow>
   files (item_loop fmt f its w) = (files w)(f \<mapsto> b @ concat (map (\<lambda>i. fmt (row i)) its))"
  by (induction its arbitrary: w b) (simp_all add: map_upd_triv)

lemma item_loop_stdout [simp]: "stdout (item_loop fmt f its w) = stdout w"
  by (induction its arbitrary: w) simp_all

lemma item_loop_trace:
  "trace (item_loop fmt f its w) = trace w @ map (\<lambda>i. EvWriterow (row i)) its"
  by (induction its arbitrary: w) simp_all

lemma written_rows [simp]: "written (map (\<lambda>i. EvWriterow (row i)) its) = map row its"
  by (induction its) simp_all

lemma kept_rows_simps [simp]:
  "kept_rows [] = []"
  "kept_rows (p # ps) = (if status_ok p then map row (page_items p) else []) @ kept_rows ps"
  "kept_rows (ps @ qs) = kept_rows ps @ kept_rows qs"
  by (simp_all add: kept_rows_def)

lemma all_rows_simps [simp]:
  "all_rows [] = []"
  "all_rows (p # ps) = map row (page_items p) @ all_rows ps"
  "all_rows (ps @ qs) = all_rows ps @ all_rows qs"
  by (simp_all add: all_rows_def)

lemma kept_rows_all_ok: "list_all status_ok ps \<Longrightarrow> kept_rows ps = all_rows ps"
  by (induction ps) simp_all

lemma yielded_pages [simp]: "yielded (map Page ps) = ps"
  by (induction ps) simp_all

lemma first_raise_pages [simp]: "first_raise (map Page ps) = None"
  by (induction ps) simp_all

lemma page_loop_result:
  "fst (page_loop fmt f us w) = (case first_raise us of None \<Rightarrow> Inr () | Some e \<Rightarrow> Inl e)"
  by (induction fmt f us w rule: page_loop.induct) simp_all

lemma page_loop_stdout [simp]: "stdout (snd (page_loop fmt f us w)) = stdout w"
  by (induction fmt f us w rule: page_loop.induct) simp_all

lemma page_loop_files:
  "files w f = Some b \<Longrightarrow>
   files (snd (page_loop fmt f us w)) = (files w)(f \<mapsto> b @ concat (map fmt (kept_rows (yielded us))))"
proof (induction fmt f us w arbitrary: b rule: page_loop.induct)
  case (1 fmt f w)
  then show ?case by (simp add: map_upd_triv)
next
  case (2 fmt f e rest w)
  then show ?case by (simp add: map_upd_triv)
next
  case (3 fmt f p rest w)
  show ?case
  proof (cases "status_ok p")
    case True
    let ?w = "item_loop fmt f (page_items p) (emit EvFetch w)"
    let ?b = "b @ concat (map (\<lambda>i. fmt (row i)) (page_items p))"
    have step: "files ?w = (files w)(f \<mapsto> ?b)"
      using "3.prems" by (simp add: item_loop_files)
    then have at_f: "files ?w f = Some ?b" by simp
    from True have kept: "\<not> \<not> status_ok p" by simp
    have "files (snd (page_loop fmt f rest ?w))
            = (files ?w)(f \<mapsto> ?b @ concat (map fmt (kept_rows (yielded rest))))"
      by (rule "3.IH"(2) [OF kept at_f])
    also have "\<dots> = (files w)(f \<mapsto> ?b @ concat (map fmt (kept_rows (yielded rest))))"
      by (simp only: step fun_upd_upd)
    also have "?b @ concat (map fmt (kept_rows (yielded rest)))
                 = b @ concat (map fmt (kept_rows (yielded (Page p # rest))))"
      using True by (simp add: o_def)
    finally show ?thesis using True by simp
  next
    case False
    then show ?thesis using "3.IH"(1) [of b] "3.prems" by simp
  qed
qed

lemma page_loop_trace:
  "\<exists>post. trace (snd (page_loop fmt f us w)) = trace w @ post
     \<and> written post = kept_rows (yielded us)"
proof (induction fmt f us w rule: page_loop.induct)
  case (1 fmt f w)
  then show ?case by simp
next
  case (2 fmt f e rest w)
  then show ?case by simp
next
  case (3 fmt f p rest w)
  show ?case
  proof (cases "status_ok p")
    case True
    let ?w = "item_loop fmt f (page_items p) (emit EvFetch w)"
    from "3.IH"(2) True obtain post where
      post: "trace (snd (page_loop fmt f rest ?w)) = trace ?w @ post"
        "written post = kept_rows (yielded rest)"
      by auto
    have "trace ?w = trace w @ EvFetch # map (\<lambda>i. EvWriterow (row i)) (page_items p)"
      by (simp add: item_loop_trace)
    then show ?thesis using post True by simp
  next
    case False
    from "3.IH"(1) False obtain post where
      "trace (snd (page_loop fmt f rest (emit EvFetch w))) = trace (emit EvFetch w) @ post"
      "written post = kept_rows (yielded rest)"
      by auto
    then show ?thesis using False by simp
  qed
qed

section \<open>What a run does\<close>

lemma run_makedirs_fails:
  "makedirs_error e = Some err \<Longrightarrow>
   export fmt root client e fs =
     (Inl err, \<lparr>files = fs,
                stdout = [''DEBUG: folder_path = '' @ folder_path root client (now e)],
                trace = [EvPrint (''DEBUG: folder_path = '' @ folder_path root client (now e))]\<rparr>)"
  by (simp add: export_def Let_def print_line_def emit_def)

lemma run_open_fails:
  "makedirs_error e = None \<Longrightarrow> open_error e = Some err \<Longrightarrow>
   export fmt root client e fs =
     (Inl err, \<lparr>files = fs,
                stdout = [''DEBUG: folder_path = '' @ folder_path root client (now e)],
                trace = [EvPrint (''DEBUG: folder_path = '' @ folder_path root client (now e)),
                         EvMakedirs (folder_path root client (now e))]\<rparr>)"
  by (simp add: export_def Let_def print_line_def emit_def)

lemma run_result:
  "makedirs_error e = None \<Longrightarrow> open_error e = None \<Longrightarrow>
   fst (export fmt root client e fs) =
     (case first_raise (upstream e) of None \<Rightarrow> Inr () | Some err \<Rightarrow> Inl err)"
  using page_loop_result [of fmt "csv_filename root client (now e)" "upstream e"]
  by (simp add: export_def Let_def case_prod_beta split: sum.splits option.splits)

lemma run_files:
  "makedirs_error e = None \<Longrightarrow> open_error e = None \<Longrightarrow>
   files (snd (export fmt root client e fs)) =
     fs(csv_filename root client (now e) \<mapsto>
          concat (map fmt (header # kept_rows (yielded (upstream e)))))"
proof -
  assume ok: "makedirs_error e = None" "open_error e = None"
  let ?f = "csv_filename root client (now e)"
  let ?folder = "folder_path root client (now e)"
  let ?w3 = "open_w ?f (emit (EvMakedirs ?folder)
               (print_line (''DEBUG: folder_path = '' @ ?folder)
                  \<lparr>files = fs, stdout = [], trace = []\<rparr>))"
  let ?w4 = "writerow fmt ?f header ?w3"
  have w3: "files ?w3 = fs(?f \<mapsto> [])" by simp
  then have "files ?w3 ?f = Some []" by simp
  then have "files ?w4 = (files ?w3)(?f \<mapsto> [] @ fmt header)" by (rule writerow_fields(1))
  then have w4: "files ?w4 = fs(?f \<mapsto> fmt header)" by (simp only: w3 fun_upd_upd append_Nil)
  then have "files ?w4 ?f = Some (fmt header)" by simp
  then have "files (snd (page_loop fmt ?f (upstream e) ?w4))
               = (files ?w4)(?f \<mapsto> fmt header @ concat (map fmt (kept_rows (yielded (upstream e)))))"
    by (rule page_loop_files)
  then have w5: "files (snd (page_loop fmt ?f (upstream e) ?w4))
               = fs(?f \<mapsto> concat (map fmt (header # kept_rows (yielded (upstream e)))))"
    by (simp only: w4 fun_upd_upd list.map concat.simps)
  show ?thesis
    using ok w5 by (simp add: export_def Let_def case_prod_beta split: sum.splits)
qed

lemma run_stdout:
  "makedirs_error e = None \<Longrightarrow> open_error e = None \<Longrightarrow>
   stdout (snd (export fmt root client e fs)) =
     (''DEBUG: folder_path = '' @ folder_path root client (now e)) #
     (case first_raise (upstream e) of
        None \<Rightarrow> [''Results exported to local file: '' @ csv_filename root client (now e)]
      | Some err \<Rightarrow> [])"
  using page_loop_result [of fmt "csv_filename root client (now e)" "upstream e"]
  by (simp add: export_def Let_def case_prod_beta split: sum.splits option.splits)

lemma run_trace:
  "makedirs_error e = None \<Longrightarrow> open_error e = None \<Longrightarrow>
   \<exists>post. trace (snd (export fmt root client e fs)) =
       [EvPrint (''DEBUG: folder_path = '' @ folder_path root client (now e)),
        EvMakedirs (folder_path root client (now e)),
        EvOpen (csv_filename root client (now e)),
        EvWriterow header] @ post
     \<and> written post = kept_rows (yielded (upstream e))"
proof -
  assume ok: "makedirs_error e = None" "open_error e = None"
  let ?f = "csv_filename root client (now e)"
  let ?folder = "folder_path root client (now e)"
  let ?w4 = "writerow fmt ?f header (open_w ?f (emit (EvMakedirs ?folder)
               (print_line (''DEBUG: folder_path = '' @ ?folder)
                  \<lparr>files = fs, stdout = [], trace = []\<rparr>)))"
  obtain post where post: "trace (snd (page_loop fmt ?f (upstream e) ?w4)) = trace ?w4 @ post"
      "written post = kept_rows (yielded (upstream e))"
    using page_loop_trace by blast
  show ?thesis
  proof (cases "fst (page_loop fmt ?f (upstream e) ?w4)")
    case (Inl err)
    with ok post show ?thesis
      by (intro exI [of _ "post @ [EvClose ?f]"])
         (simp add: export_def Let_def case_prod_beta)
  next
    case (Inr u)
    with ok post show ?thesis
      by (intro exI [of _ "post @ [EvClose ?f,
            EvPrint (''Results exported to local file: '' @ ?f)]"])
         (simp add: export_def Let_def case_prod_beta)
  qed
qed

lemma run_written:
  "makedirs_error e = None \<Longrightarrow> open_error e = None \<Longrightarrow>
   written (trace (snd (export fmt root client e fs))) = header # kept_rows (yielded (upstream e))"
proof -
  assume ok: "makedirs_error e = None" "open_error e = None"
  from run_trace [OF ok] obtain post where
    "trace (snd (export fmt root client e fs)) =
       [EvPrint (''DEBUG: folder_path = '' @ folder_path root client (now e)),
        EvMakedirs (folder_path root client (now e)),
        EvOpen (csv_filename root client (now e)),
        EvWriterow header] @ post"
    "written post = kept_rows (yielded (upstream e))"
    by blast
  then show ?thesis by simp
qed

section \<open>Rows, requests and paths\<close>

subsection \<open>The width of a row and its cells\<close>

lemma length_header: "length header = 21"
  by (simp add: header_def)

lemma length_row: "length (row item) = 21"
  by (simp add: row_def)

lemma kept_rows_length: "r \<in> set (kept_rows ps) \<Longrightarrow> length r = 21"
  by (auto simp: kept_rows_def length_row)

lemma row_map: "row item = map (dict_get item) field_names"
  by (simp add: row_def field_names_def)

lemma distinct_field_names: "distinct field_names"
  by (simp add: field_names_def)

lemma dict_get_del:
  "dict_get (dict_del k d) k' = (if k' = k then PNone else dict_get d k')"
  by (induction d) (auto simp: dict_get_def dict_del_def)

subsection \<open>The first request\<close>

lemma page_loop_fetch:
  "us \<noteq> [] \<Longrightarrow> \<exists>post. trace (snd (page_loop fmt f us w)) = trace w @ EvFetch # post"
proof (cases us)
  case Nil
  then show "us \<noteq> [] \<Longrightarrow> ?thesis" by simp
next
  case (Cons u rest)
  show ?thesis
  proof (cases u)
    case (Raise err)
    with Cons show ?thesis by simp
  next
    case (Page p)
    obtain post where
      "trace (snd (page_loop fmt f rest (emit EvFetch w))) = trace (emit EvFetch w) @ post"
      using page_loop_trace by blast
    moreover obtain post' where
      "trace (snd (page_loop fmt f rest (item_loop fmt f (page_items p) (emit EvFetch w))))
         = trace (item_loop fmt f (page_items p) (emit EvFetch w)) @ post'"
      using page_loop_trace by blast
    ultimately show ?thesis using Cons Page by (simp add: item_loop_trace)
  qed
qed

lemma run_trace_fetch:
  assumes "makedirs_error e = None" and "open_error e = None" and "upstream e \<noteq> []"
  shows "\<exists>post. trace (snd (export fmt root client e fs)) =
       [EvPrint (''DEBUG: folder_path = '' @ folder_path root client (now e)),
        EvMakedirs (folder_path root client (now e)),
        EvOpen (csv_filename root client (now e)),
        EvWriterow header, EvFetch] @ post"
proof -
  let ?f = "csv_filename root client (now e)"
  let ?folder = "folder_path root client (now e)"
  let ?w4 = "writerow fmt ?f header (open_w ?f (emit (EvMakedirs ?folder)
               (print_line (''DEBUG: folder_path = '' @ ?folder)
                  \<lparr>files = fs, stdout = [], trace = []\<rparr>)))"
  obtain post where post:
    "trace (snd (page_loop fmt ?f (upstream e) ?w4)) = trace ?w4 @ EvFetch # post"
    using page_loop_fetch [OF assms(3)] by blast
  show ?thesis
  proof (cases "fst (page_loop fmt ?f (upstream e) ?w4)")
    case (Inl err)
    with assms post show ?thesis
      by (intro exI [of _ "post @ [EvClose ?f]"])
         (simp add: export_def Let_def case_prod_beta)
  next
    case (Inr u)
    with assms post show ?thesis
      by (intro exI [of _ "post @ [EvClose ?f,
            EvPrint (''Results exported to local file: '' @ ?f)]"])
         (simp add: export_def Let_def case_prod_beta)
  qed
qed

subsection \<open>Digits of the date and the shape of the folder\<close>

lemma digit_char_digit: "n < 10 \<Longrightarrow> digit_char n \<in> set ''0123456789''"
  unfolding digit_char_def by (rule nth_mem) simp

lemma decimal_digits: "set (decimal n) \<subseteq> set ''0123456789''"
proof (induction n rule: decimal.induct)
  case (1 n)
  show ?case
  proof (cases "n < 10")
    case True
    then show ?thesis
      using digit_char_digit [of n] by (subst decimal.simps) simp
  next
    case False
    have "n mod 10 < 10" by simp
    then have "digit_char (n mod 10) \<in> set ''0123456789''" by (rule digit_char_digit)
    with False "1.IH" show ?thesis by (subst decimal.simps) simp
  qed
qed

lemma decimal_nonempty: "decimal n \<noteq> []"
  by (subst decimal.simps) simp

lemma strftime_Ym_digits: "set (strftime_Ym d) \<subseteq> set ''0123456789''"
  using decimal_digits [of "year d"] decimal_digits [of "month d"]
  by (auto simp: strftime_Ym_def zero_pad_def)

lemma strftime_Ym_nonempty: "strftime_Ym d \<noteq> []"
  by (simp add: strftime_Ym_def zero_pad_def decimal_nonempty)

lemma strftime_Ym_no_sep:
  "hd (strftime_Ym d) \<noteq> CHR ''/''" "last (strftime_Ym d) \<noteq> CHR ''/''"
proof -
  have "hd (strftime_Ym d) \<in> set (strftime_Ym d)" "last (strftime_Ym d) \<in> set (strftime_Ym d)"
    using strftime_Ym_nonempty by simp_all
  then have "hd (strftime_Ym d) \<in> set ''0123456789''" "last (strftime_Ym d) \<in> set ''0123456789''"
    using strftime_Ym_digits by blast+
  then show "hd (strftime_Ym d) \<noteq> CHR ''/''" "last (strftime_Ym d) \<noteq> CHR ''/''"
    by auto
qed

lemma length_decimal_1: "n < 10 \<Longrightarrow> length (decimal n) = 1"
  by (subst decimal.simps) simp

lemma length_decimal_2: "10 \<le> n \<Longrightarrow> n < 100 \<Longrightarrow> length (decimal n) = 2"
  by (subst decimal.simps) (simp add: length_decimal_1)

lemma length_decimal_3: "100 \<le> n \<Longrightarrow> n < 1000 \<Longrightarrow> length (decimal n) = 3"
  by (subst decimal.simps) (simp add: length_decimal_2)

lemma length_decimal_4: "1000 \<le> n \<Longrightarrow> n < 10000 \<Longrightarrow> length (decimal n) = 4"
  by (subst decimal.simps) (simp add: length_decimal_3)

lemma folder_path_shape:
  "client = [] \<or> hd client \<noteq> CHR ''/'' \<Longrightarrow>
   folder_path root client d = with_sep (with_sep root @ client) @ strftime_Ym d"
  using strftime_Ym_no_sep(1) [of d]
  by (auto simp: folder_path_def path_join_def join_step_def with_sep_def)

section \<open>The claims\<close>

text \<open>
  C7. When the paginated listing returns zero pages, the run succeeds and the output file
  holds the header row and nothing else: one row was handed to the csv writer, the header,
  and the bytes of the file are the header's line.
\<close>

theorem zero_pages_header_only:
  assumes "makedirs_error e = None" and "open_error e = None" and "upstream e = []"
  shows "fst (main fmt e fs) = Inr ()
    \<and> written (trace (snd (main fmt e fs))) = [header]
    \<and> files (snd (main fmt e fs)) (csv_filename local_root client_name (now e))
          = Some (fmt header)"
  using assms
  by (simp add: main_def run_result run_written run_files)

theorem zero_pages_header_only_witness:
  "makedirs_error (quiet []) = None \<and> open_error (quiet []) = None \<and> upstream (quiet []) = []
   \<and> fst (main csv_plain (quiet []) Map.empty) = Inr ()
   \<and> written (trace (snd (main csv_plain (quiet []) Map.empty))) = [header]
   \<and> files (snd (main csv_plain (quiet []) Map.empty))
         (csv_filename local_root client_name (now (quiet []))) = Some (csv_plain header)"
  using zero_pages_header_only [of "quiet []" csv_plain Map.empty]
  by (simp add: quiet_def)

text \<open>
  C1, as the code has it. Whatever the upstream gives (no page, many pages, an exception),
  once the file is open the first row handed to the csv writer is the header and the file
  begins with the header's line. The header has 21 columns, not 20: Account ID, Action
  Type, and so on to Source and Tags, in this order.
\<close>

theorem header_row_first:
  assumes "makedirs_error e = None" and "open_error e = None"
  shows "(\<exists>rows. written (trace (snd (main fmt e fs))) = header # rows)
    \<and> (\<exists>rest. files (snd (main fmt e fs)) (csv_filename local_root client_name (now e))
                 = Some (fmt header @ rest))
    \<and> length header = 21
    \<and> header = map PStr
          [''Account ID'', ''Action Type'', ''Currency Code'', ''Current Resource Summary'',
           ''Current Resource Type'', ''Estimated Monthly Cost'', ''Estimated Monthly Savings'',
           ''Estimated Savings Percentage'', ''Implementation Effort'',
           ''Last Refresh Timestamp'', ''Recommendation ID'',
           ''Recommendation Lookback Period In Days'', ''Recommended Resource Summary'',
           ''Recommended Resource Type'', ''Region'', ''Resource ARN'', ''Resource ID'',
           ''Restart Needed'', ''Rollback Possible'', ''Source'', ''Tags'']"
proof (intro conjI)
  show "\<exists>rows. written (trace (snd (main fmt e fs))) = header # rows"
    using assms by (simp add: main_def run_written)
  show "\<exists>rest. files (snd (main fmt e fs)) (csv_filename local_root client_name (now e))
                 = Some (fmt header @ rest)"
    using assms by (simp add: main_def run_files)
  show "length header = 21" by (rule length_header)
  show "header = map PStr
          [''Account ID'', ''Action Type'', ''Currency Code'', ''Current Resource Summary'',
           ''Current Resource Type'', ''Estimated Monthly Cost'', ''Estimated Monthly Savings'',
           ''Estimated Savings Percentage'', ''Implementation Effort'',
           ''Last Refresh Timestamp'', ''Recommendation ID'',
           ''Recommendation Lookback Period In Days'', ''Recommended Resource Summary'',
           ''Recommended Resource Type'', ''Region'', ''Resource ARN'', ''Resource ID'',
           ''Restart Needed'', ''Rollback Possible'', ''Source'', ''Tags'']"
    by (simp add: header_def)
qed

theorem header_row_first_witness:
  "makedirs_error (quiet [Page (page_with 200 [rec_a])]) = None
   \<and> open_error (quiet [Page (page_with 200 [rec_a])]) = None
   \<and> (\<exists>rows. written (trace (snd (main csv_plain (quiet [Page (page_with 200 [rec_a])])
                                       Map.empty))) = header # rows)
   \<and> length header = 21"
  using header_row_first [of "quiet [Page (page_with 200 [rec_a])]" csv_plain Map.empty]
  by (simp add: quiet_def)

text \<open>
  C1, as the spec words it, fails: on a run that meets no page, the first row written has
  21 columns.
\<close>

theorem header_twenty_columns_counterexample:
  "length (hd (written (trace (snd (main csv_plain (quiet []) Map.empty))))) \<noteq> 20"
  by (simp add: main_def run_written quiet_def length_header)

text \<open>
  C9. Whatever fields a record has, its row has as many cells as the header, 21; so every
  row handed to the csv writer in any run, the header included, has 21 cells.
\<close>

theorem row_arity:
  "length (row item) = length header \<and> length (row item) = 21
   \<and> (\<forall>r \<in> set (written (trace (snd (main fmt e fs)))). length r = 21)"
proof (intro conjI)
  show "length (row item) = length header" by (simp add: length_row length_header)
  show "length (row item) = 21" by (rule length_row)
  show "\<forall>r \<in> set (written (trace (snd (main fmt e fs)))). length r = 21"
  proof (cases "makedirs_error e")
    case (Some err)
    then show ?thesis by (simp add: main_def run_makedirs_fails)
  next
    case None
    show ?thesis
    proof (cases "open_error e")
      case (Some err)
      with None show ?thesis by (simp add: main_def run_open_fails)
    next
      case open_ok: None
      with None show ?thesis
        by (auto simp: main_def run_written length_header kept_rows_length)
    qed
  qed
qed

theorem row_arity_witness:
  "length (row rec_b) = length header \<and> length (row rec_b) = 21
   \<and> written (trace (snd (main csv_plain
             (quiet [Page (page_with 200 [rec_a, rec_b])]) Map.empty)))
       = [header, row rec_a, row rec_b]
   \<and> map length (written (trace (snd (main csv_plain
             (quiet [Page (page_with 200 [rec_a, rec_b])]) Map.empty)))) = [21, 21, 21]"
proof -
  have "written (trace (snd (main csv_plain
             (quiet [Page (page_with 200 [rec_a, rec_b])]) Map.empty)))
       = [header, row rec_a, row rec_b]"
    by (simp add: main_def run_written quiet_def status_ok_def page_with_def dict_get_def
        page_items_def)
  then show ?thesis
    using row_arity [of rec_b csv_plain "quiet [Page (page_with 200 [rec_a, rec_b])]" Map.empty]
    by simp
qed

text \<open>
  C3. The row of a record holds, in column \<open>i\<close>, the value the record has for the
  \<open>i\<close>-th field, and \<open>None\<close> (the empty cell) when the record has none. Taking a
  field out of a record empties its column and changes no other cell. The row is a total
  function of the record: a missing field raises nothing.
\<close>

theorem row_fields:
  "length (row item) = length field_names
   \<and> (\<forall>i < length field_names.
        row item ! i = (case map_of item (field_names ! i) of None \<Rightarrow> PNone | Some v \<Rightarrow> v))
   \<and> (\<forall>i < length field_names.
        row (dict_del (field_names ! i) item) = (row item)[i := PNone])"
proof (intro conjI allI impI)
  show "length (row item) = length field_names"
    by (simp add: row_map)
next
  fix i assume "i < length field_names"
  then show "row item ! i
               = (case map_of item (field_names ! i) of None \<Rightarrow> PNone | Some v \<Rightarrow> v)"
    by (simp add: row_map dict_get_def)
next
  fix i assume i: "i < length field_names"
  show "row (dict_del (field_names ! i) item) = (row item)[i := PNone]"
  proof (rule nth_equalityI)
    show "length (row (dict_del (field_names ! i) item)) = length ((row item)[i := PNone])"
      by (simp add: row_map)
  next
    fix j assume "j < length (row (dict_del (field_names ! i) item))"
    then have j: "j < length field_names" by (simp add: row_map)
    have "(field_names ! j = field_names ! i) = (j = i)"
      using i j distinct_field_names by (simp add: nth_eq_iff_index_eq)
    then show "row (dict_del (field_names ! i) item) ! j = (row item)[i := PNone] ! j"
      using i j by (simp add: row_map dict_get_del nth_list_update)
  qed
qed

theorem row_fields_witness:
  "row rec_a
     = [PStr ''111122223333'', PStr ''Stop'', PNone, PNone, PNone, PNone, PNone, PNone, PNone,
        PNone, PNone, PInt 14, PNone, PNone, PNone, PNone, PNone, PBool True, PNone, PNone,
        PNone]
   \<and> row rec_a ! 1 = PStr ''Stop''
   \<and> row rec_a ! 2 = PNone
   \<and> row (dict_del ''actionType'' rec_a) = (row rec_a)[1 := PNone]"
proof -
  have "(1::nat) < length field_names" "(2::nat) < length field_names"
    by (simp_all add: field_names_def)
  moreover have "field_names ! 1 = ''actionType''" "field_names ! 2 = ''currencyCode''"
    by (simp_all add: field_names_def)
  moreover have "map_of rec_a ''actionType'' = Some (PStr ''Stop'')"
    "map_of rec_a ''currencyCode'' = None"
    by (simp_all add: rec_a_def)
  moreover have "row rec_a
     = [PStr ''111122223333'', PStr ''Stop'', PNone, PNone, PNone, PNone, PNone, PNone, PNone,
        PNone, PNone, PInt 14, PNone, PNone, PNone, PNone, PNone, PBool True, PNone, PNone,
        PNone]"
    by (simp add: row_def rec_a_def dict_get_def)
  ultimately show ?thesis
    using row_fields [of rec_a] by (metis option.simps(4,5))
qed

text \<open>
  C5. When every page passes the status test, the rows handed to the csv writer after the
  header are the rows of the records, page after page in the order the pages arrive and,
  within a page, in the order of its items; the bytes of the file are the lines of these
  rows in that order. Nothing is sorted, merged or left out.
\<close>

theorem rows_in_upstream_order:
  assumes "makedirs_error e = None" and "open_error e = None"
    and "upstream e = map Page ps" and "list_all status_ok ps"
  shows "fst (main fmt e fs) = Inr ()
    \<and> written (trace (snd (main fmt e fs))) = header # all_rows ps
    \<and> files (snd (main fmt e fs)) (csv_filename local_root client_name (now e))
          = Some (concat (map fmt (header # all_rows ps)))"
  using assms
  by (simp add: main_def run_result run_written run_files kept_rows_all_ok)

theorem rows_in_upstream_order_witness:
  "written (trace (snd (main csv_plain
       (quiet [Page (page_with 200 [rec_b, rec_a]), Page (page_with 200 [rec_a, rec_c])])
       Map.empty)))
     = [header, row rec_b, row rec_a, row rec_a, row rec_c]"
proof -
  let ?ps = "[page_with 200 [rec_b, rec_a], page_with 200 [rec_a, rec_c]]"
  have "list_all status_ok ?ps"
    by (simp add: status_ok_def page_with_def dict_get_def)
  then show ?thesis
    using rows_in_upstream_order [of "quiet (map Page ?ps)" ?ps csv_plain Map.empty]
    by (simp add: quiet_def page_items_def page_with_def)
qed

text \<open>
  C2. Let the upstream yield pages, none of them an exception, and let one of them, \<open>p\<close>,
  fail the status test. Then the run ends without an error, it prints its two usual lines
  and nothing else, and the file and the console are what they are when \<open>p\<close> is not
  there at all. The rows written are those of the pages before \<open>p\<close> that pass the
  test, then those of the pages after \<open>p\<close> that pass it; when all the other pages
  pass, these are all their rows, in their order.
\<close>

theorem failed_page_dropped:
  assumes "makedirs_error e = None" and "open_error e = None"
    and "upstream e = map Page (ps @ p # qs)" and "\<not> status_ok p"
  shows "fst (main fmt e fs) = Inr ()
    \<and> stdout (snd (main fmt e fs))
          = [''DEBUG: folder_path = '' @ folder_path local_root client_name (now e),
             ''Results exported to local file: '' @ csv_filename local_root client_name (now e)]
    \<and> written (trace (snd (main fmt e fs))) = header # kept_rows ps @ kept_rows qs
    \<and> files (snd (main fmt e fs)) (csv_filename local_root client_name (now e))
          = Some (concat (map fmt (header # kept_rows ps @ kept_rows qs)))
    \<and> files (snd (main fmt e fs)) = files (snd (main fmt (e\<lparr>upstream := map Page (ps @ qs)\<rparr>) fs))
    \<and> stdout (snd (main fmt e fs)) = stdout (snd (main fmt (e\<lparr>upstream := map Page (ps @ qs)\<rparr>) fs))
    \<and> (list_all status_ok (ps @ qs) \<longrightarrow>
          written (trace (snd (main fmt e fs))) = header # all_rows ps @ all_rows qs)"
proof -
  let ?e' = "e\<lparr>upstream := map Page (ps @ qs)\<rparr>"
  have ok': "makedirs_error ?e' = None" "open_error ?e' = None" "now ?e' = now e"
    using assms by simp_all
  have rows: "kept_rows (yielded (upstream e)) = kept_rows ps @ kept_rows qs"
    using assms(3,4) by (simp only: yielded_pages) simp
  have rows': "kept_rows (yielded (upstream ?e')) = kept_rows ps @ kept_rows qs"
    by (simp del: map_append)
  have none: "first_raise (upstream e) = None"
    using assms(3) by (simp only: first_raise_pages)
  have none': "first_raise (upstream ?e') = None"
    by (simp del: map_append)
  have "list_all status_ok (ps @ qs) \<Longrightarrow> kept_rows ps @ kept_rows qs = all_rows ps @ all_rows qs"
    by (simp add: kept_rows_all_ok)
  then show ?thesis
    using assms(1,2) ok' rows rows' none none'
    by (simp add: main_def run_result run_written run_files run_stdout del: map_append)
qed

theorem failed_page_dropped_witness:
  "\<not> status_ok (page_with 500 [rec_c])
   \<and> fst (main csv_plain
            (quiet [Page (page_with 200 [rec_a, rec_b]), Page (page_with 500 [rec_c])])
            Map.empty) = Inr ()
   \<and> written (trace (snd (main csv_plain
            (quiet [Page (page_with 200 [rec_a, rec_b]), Page (page_with 500 [rec_c])])
            Map.empty))) = [header, row rec_a, row rec_b]
   \<and> length (stdout (snd (main csv_plain
            (quiet [Page (page_with 200 [rec_a, rec_b]), Page (page_with 500 [rec_c])])
            Map.empty))) = 2"
proof -
  let ?ps = "[page_with 200 [rec_a, rec_b]]"
  let ?p = "page_with 500 [rec_c]"
  let ?e = "quiet (map Page (?ps @ ?p # []))"
  have bad: "\<not> status_ok ?p"
    by (simp add: status_ok_def page_with_def dict_get_def)
  have good: "status_ok (page_with 200 [rec_a, rec_b])"
    by (simp add: status_ok_def page_with_def dict_get_def)
  have "makedirs_error ?e = None" "open_error ?e = None" "upstream ?e = map Page (?ps @ ?p # [])"
    by (simp_all add: quiet_def)
  from failed_page_dropped [OF this bad, of csv_plain Map.empty] bad good
  show ?thesis
    by (simp add: page_items_def page_with_def)
qed

text \<open>
  C6. Two runs in the same year and month that meet the same upstream, the second started
  on the files the first one left: the second leaves every file as the first left it. The
  output file holds the header's line and the lines of the rows, whatever it held before
  the run, so nothing accumulates.
\<close>

theorem rerun_overwrites:
  assumes "makedirs_error e1 = None" and "open_error e1 = None"
    and "makedirs_error e2 = None" and "open_error e2 = None"
    and "now e2 = now e1" and "upstream e2 = upstream e1"
  shows "files (snd (main fmt e2 (files (snd (main fmt e1 fs))))) = files (snd (main fmt e1 fs))
    \<and> files (snd (main fmt e1 fs)) (csv_filename local_root client_name (now e1))
          = Some (concat (map fmt (header # kept_rows (yielded (upstream e1)))))
    \<and> files (snd (main fmt e2 (files (snd (main fmt e1 fs)))))
            (csv_filename local_root client_name (now e1))
          = Some (concat (map fmt (header # kept_rows (yielded (upstream e1)))))"
  using assms by (simp add: main_def run_files)

theorem rerun_overwrites_witness:
  "files (snd (main csv_plain (quiet [Page (page_with 200 [rec_a])])
      (files (snd (main csv_plain (quiet [Page (page_with 200 [rec_a])])
         [csv_filename local_root client_name july_2024 \<mapsto> ''stale'']))))) 
     (csv_filename local_root client_name july_2024)
   = Some (csv_plain header @ csv_plain (row rec_a))"
proof -
  let ?e = "quiet [Page (page_with 200 [rec_a])]"
  have "makedirs_error ?e = None" "open_error ?e = None" "makedirs_error ?e = None"
    "open_error ?e = None" "now ?e = now ?e" "upstream ?e = upstream ?e"
    by (simp_all add: quiet_def)
  from rerun_overwrites [OF this, of csv_plain
      "[csv_filename local_root client_name july_2024 \<mapsto> ''stale'']"]
  show ?thesis
    by (simp add: quiet_def status_ok_def page_with_def dict_get_def page_items_def)
qed

text \<open>
  C10. Once the folder is made and the file is open, the run has printed its first line,
  made the folder, opened the file and written the header, in this order, before it does
  anything else; the first request for a page, if there is one, comes right after. So the
  file begins with the header's line whatever happens later, and when a request raises an
  exception the run ends with that exception and leaves the header's line followed by the
  lines of the rows written until then.
\<close>

theorem header_before_fetch:
  assumes "makedirs_error e = None" and "open_error e = None"
  shows "take 4 (trace (snd (main fmt e fs)))
          = [EvPrint (''DEBUG: folder_path = '' @ folder_path local_root client_name (now e)),
             EvMakedirs (folder_path local_root client_name (now e)),
             EvOpen (csv_filename local_root client_name (now e)),
             EvWriterow header]
    \<and> (upstream e \<noteq> [] \<longrightarrow> trace (snd (main fmt e fs)) ! 4 = EvFetch)
    \<and> (\<exists>rest. files (snd (main fmt e fs)) (csv_filename local_root client_name (now e))
                 = Some (fmt header @ rest))
    \<and> (\<forall>err. first_raise (upstream e) = Some err \<longrightarrow>
          fst (main fmt e fs) = Inl err
          \<and> files (snd (main fmt e fs)) (csv_filename local_root client_name (now e))
              = Some (fmt header @ concat (map fmt (kept_rows (yielded (upstream e))))))"
proof (intro conjI allI impI)
  obtain post where "trace (snd (main fmt e fs)) =
       [EvPrint (''DEBUG: folder_path = '' @ folder_path local_root client_name (now e)),
        EvMakedirs (folder_path local_root client_name (now e)),
        EvOpen (csv_filename local_root client_name (now e)),
        EvWriterow header] @ post"
    using run_trace [OF assms] unfolding main_def by blast
  then show "take 4 (trace (snd (main fmt e fs)))
          = [EvPrint (''DEBUG: folder_path = '' @ folder_path local_root client_name (now e)),
             EvMakedirs (folder_path local_root client_name (now e)),
             EvOpen (csv_filename local_root client_name (now e)),
             EvWriterow header]"
    by simp
next
  assume "upstream e \<noteq> []"
  then obtain post where "trace (snd (main fmt e fs)) =
       [EvPrint (''DEBUG: folder_path = '' @ folder_path local_root client_name (now e)),
        EvMakedirs (folder_path local_root client_name (now e)),
        EvOpen (csv_filename local_root client_name (now e)),
        EvWriterow header, EvFetch] @ post"
    using run_trace_fetch [OF assms] unfolding main_def by blast
  then show "trace (snd (main fmt e fs)) ! 4 = EvFetch" by simp
next
  show "\<exists>rest. files (snd (main fmt e fs)) (csv_filename local_root client_name (now e))
                 = Some (fmt header @ rest)"
    using assms by (simp add: main_def run_files)
next
  fix err assume "first_raise (upstream e) = Some err"
  then show "fst (main fmt e fs) = Inl err"
    using assms by (simp add: main_def run_result)
next
  fix err assume "first_raise (upstream e) = Some err"
  show "files (snd (main fmt e fs)) (csv_filename local_root client_name (now e))
          = Some (fmt header @ concat (map fmt (kept_rows (yielded (upstream e)))))"
    using assms by (simp add: main_def run_files)
qed

theorem header_before_fetch_witness:
  "trace (snd (main csv_plain
       (quiet [Page (page_with 200 [rec_a]), Raise (ClientError ''AccessDenied'')]) Map.empty))
     ! 3 = EvWriterow header
   \<and> trace (snd (main csv_plain
       (quiet [Page (page_with 200 [rec_a]), Raise (ClientError ''AccessDenied'')]) Map.empty))
     ! 4 = EvFetch
   \<and> fst (main csv_plain
       (quiet [Page (page_with 200 [rec_a]), Raise (ClientError ''AccessDenied'')]) Map.empty)
     = Inl (ClientError ''AccessDenied'')
   \<and> files (snd (main csv_plain
       (quiet [Page (page_with 200 [rec_a]), Raise (ClientError ''AccessDenied'')]) Map.empty))
       (csv_filename local_root client_name july_2024)
     = Some (csv_plain header @ csv_plain (row rec_a))"
proof -
  let ?e = "quiet [Page (page_with 200 [rec_a]), Raise (ClientError ''AccessDenied'')]"
  let ?t = "trace (snd (main csv_plain ?e Map.empty))"
  have ok: "makedirs_error ?e = None" "open_error ?e = None"
    by (simp_all add: quiet_def)
  have raised: "first_raise (upstream ?e) = Some (ClientError ''AccessDenied'')"
    by (simp add: quiet_def)
  have nonempty: "upstream ?e \<noteq> []"
    by (simp add: quiet_def)
  note claim = header_before_fetch [OF ok, of csv_plain Map.empty]
  from claim have "take 4 ?t ! 3 = EvWriterow header" by simp
  then have third: "?t ! 3 = EvWriterow header" by simp
  from claim nonempty have fourth: "?t ! 4 = EvFetch" by blast
  from claim raised have
    "fst (main csv_plain ?e Map.empty) = Inl (ClientError ''AccessDenied'')"
    "files (snd (main csv_plain ?e Map.empty)) (csv_filename local_root client_name (now ?e))
      = Some (csv_plain header @ concat (map csv_plain (kept_rows (yielded (upstream ?e)))))"
    by blast+
  then show ?thesis
    using third fourth
    by (simp add: quiet_def status_ok_def page_with_def dict_get_def page_items_def)
qed

text \<open>
  C4, as the code has it. For a client name that does not begin with the separator, the
  path of the CSV file is the root, the client name, the year and month of the run date,
  and the client name followed by \<open>_recommendations.csv\<close>, where a separator
  stands between two parts unless what comes before it is empty or ends with one. The
  year and month are six digits for the years 1000 to 9999. For the root \<open>/data/\<close>,
  the client \<open>Acme\<close> and July 2024 this is the path the spec gives.
\<close>

theorem csv_filename_shape:
  assumes "client = [] \<or> hd client \<noteq> CHR ''/''"
  shows "csv_filename root client d
           = with_sep (with_sep root @ client) @ strftime_Ym d @ ''/'' @ client
               @ ''_recommendations.csv''
    \<and> set (strftime_Ym d) \<subseteq> set ''0123456789''
    \<and> (1000 \<le> year d \<and> year d \<le> 9999 \<and> 1 \<le> month d \<and> month d \<le> 12
          \<longrightarrow> length (strftime_Ym d) = 6)"
proof (intro conjI impI)
  let ?folder = "with_sep (with_sep root @ client) @ strftime_Ym d"
  have "?folder \<noteq> []" "last ?folder \<noteq> CHR ''/''"
    using strftime_Ym_nonempty [of d] strftime_Ym_no_sep(2) [of d] by simp_all
  moreover have "\<not> (client @ ''_recommendations.csv'' \<noteq> []
      \<and> hd (client @ ''_recommendations.csv'') = CHR ''/'')"
    using assms by (cases client) auto
  ultimately have "csv_filename root client d
           = ?folder @ ''/'' @ client @ ''_recommendations.csv''"
    using assms
    by (simp add: csv_filename_def folder_path_shape path_join_def join_step_def)
  then show "csv_filename root client d
           = with_sep (with_sep root @ client) @ strftime_Ym d @ ''/'' @ client
               @ ''_recommendations.csv''"
    by simp
next
  show "set (strftime_Ym d) \<subseteq> set ''0123456789''" by (rule strftime_Ym_digits)
next
  assume range: "1000 \<le> year d \<and> year d \<le> 9999 \<and> 1 \<le> month d \<and> month d \<le> 12"
  then have "length (decimal (year d)) = 4" by (simp add: length_decimal_4)
  moreover have "length (zero_pad 2 (decimal (month d))) = 2"
  proof (cases "month d < 10")
    case True
    then show ?thesis by (simp add: zero_pad_def length_decimal_1)
  next
    case False
    with range show ?thesis by (simp add: zero_pad_def length_decimal_2)
  qed
  ultimately show "length (strftime_Ym d) = 6"
    by (simp add: strftime_Ym_def zero_pad_def)
qed

theorem csv_filename_shape_witness:
  "csv_filename ''/data/'' ''Acme'' july_2024 = ''/data/Acme/202407/Acme_recommendations.csv''
   \<and> length (strftime_Ym july_2024) = 6"
proof -
  have ym: "strftime_Ym july_2024 = ''202407''"
    by (simp add: strftime_Ym_def july_2024_def zero_pad_def decimal.simps digit_char_def)
  have "''Acme'' = [] \<or> hd ''Acme'' \<noteq> CHR ''/''" by simp
  from csv_filename_shape [OF this, of "''/data/''" july_2024]
  show ?thesis by (simp add: ym with_sep_def)
qed

text \<open>
  C4, as the spec words it for every client name, fails: a client name that begins with
  the separator is an absolute path for \<open>os.path.join\<close>, which then drops the root
  and the year-month folder.
\<close>

theorem csv_filename_absolute_client_counterexample:
  "csv_filename ''/data/'' ''/Acme'' july_2024 = ''/Acme_recommendations.csv''
   \<and> take 6 (csv_filename ''/data/'' ''/Acme'' july_2024) \<noteq> ''/data/''
   \<and> CHR ''2'' \<notin> set (csv_filename ''/data/'' ''/Acme'' july_2024)"
  by (simp add: csv_filename_def folder_path_def path_join_def join_step_def)

text \<open>
  C8. Let \<open>v\<close> be what \<open>os.environ.get(name, default)\<close> gives. A list or a tuple is
  returned as the string of its elements joined by commas. \<open>None\<close> raises the
  RuntimeError that names the variable when the value is required, and is returned as
  \<open>None\<close> when it is not. Every other value is returned as its string; a variable
  that is set is returned as it is.
\<close>

theorem get_env_str_cases:
  "(\<forall>xs. environ_get environ name dflt = PList xs \<or> environ_get environ name dflt = PTuple xs
        \<longrightarrow> get_env_str other environ name dflt required
              = Inr (PStr (str_join '','' (map (py_str other) xs))))
   \<and> (environ_get environ name dflt = PNone \<and> required
        \<longrightarrow> get_env_str other environ name dflt required
              = Inl (RuntimeError (''Missing required environment variable: '' @ name)))
   \<and> (environ_get environ name dflt = PNone \<and> \<not> required
        \<longrightarrow> get_env_str other environ name dflt required = Inr PNone)
   \<and> (environ_get environ name dflt \<noteq> PNone
        \<and> (\<forall>xs. environ_get environ name dflt \<noteq> PList xs
                \<and> environ_get environ name dflt \<noteq> PTuple xs)
        \<longrightarrow> get_env_str other environ name dflt required
              = Inr (PStr (py_str other (environ_get environ name dflt))))
   \<and> (\<forall>s. environ name = Some s
        \<longrightarrow> get_env_str other environ name dflt required = Inr (PStr s))"
  by (cases "environ_get environ name dflt")
     (auto simp: get_env_str_def Let_def environ_get_def split: option.splits)

theorem get_env_str_cases_witness:
  "get_env_str (\<lambda>u. []) Map.empty ''REGIONS'' (PList [PStr ''us-east-1'', PInt 2, PInt (- 20)]) True
     = Inr (PStr ''us-east-1,2,-20'')
   \<and> get_env_str (\<lambda>u. []) Map.empty ''REGIONS'' (PTuple [PStr ''a'', PStr ''b'']) False
     = Inr (PStr ''a,b'')
   \<and> get_env_str (\<lambda>u. []) Map.empty ''CLIENT'' PNone True
     = Inl (RuntimeError ''Missing required environment variable: CLIENT'')
   \<and> get_env_str (\<lambda>u. []) Map.empty ''CLIENT'' PNone False = Inr PNone
   \<and> get_env_str (\<lambda>u. []) Map.empty ''RETRIES'' (PInt 3) True = Inr (PStr ''3'')
   \<and> get_env_str (\<lambda>u. []) [''CLIENT'' \<mapsto> ''Acme''] ''CLIENT'' PNone True = Inr (PStr ''Acme'')"
proof -
  have digits: "decimal 2 = ''2''" "decimal 20 = ''20''" "decimal 3 = ''3''"
    by (simp_all add: decimal.simps digit_char_def)
  show ?thesis
    using get_env_str_cases [of Map.empty "''REGIONS''"
          "PList [PStr ''us-east-1'', PInt 2, PInt (- 20)]" "\<lambda>u. []" True]
      get_env_str_cases [of Map.empty "''REGIONS''" "PTuple [PStr ''a'', PStr ''b'']" "\<lambda>u. []" False]
      get_env_str_cases [of Map.empty "''CLIENT''" PNone "\<lambda>u. []" True]
      get_env_str_cases [of Map.empty "''CLIENT''" PNone "\<lambda>u. []" False]
      get_env_str_cases [of Map.empty "''RETRIES''" "PInt 3" "\<lambda>u. []" True]
      get_env_str_cases [of "[''CLIENT'' \<mapsto> ''Acme'']" "''CLIENT''" PNone "\<lambda>u. []" True]
    by (simp add: environ_get_def digits)
qed

end
